theory Spec2Isabelle
  imports Main "HOL-Library.AList"
begin

section \<open>JavaScript values\<close>

text \<open>
  The values that flow through \<open>utils/open-api.ts\<close> are plain JavaScript data: OpenAPI
  fragments, the configuration's overrides, the bodies returned by route probes. An object
  is an association list in insertion order with one entry per key; \<open>JUndef\<close> is the value
  \<open>undefined\<close>, which an object can hold under a key (\<open>tags: undefined\<close>) and which
  \<open>JSON.stringify\<close> drops.
\<close>

datatype json =
    JUndef
  | JNull
  | JBool bool
  | JNum int
  | JStr string
  | JArr "json list"
  | JObj "(string \<times> json) list"

type_synonym obj = "(string \<times> json) list"

text \<open>\<open>o[k]\<close> and \<open>o[k] = v\<close> (a present key keeps its place, a new key goes last).\<close>

definition get_key :: "string \<Rightarrow> obj \<Rightarrow> json option" where
  "get_key k ob = map_of ob k"

definition set_key :: "string \<Rightarrow> json \<Rightarrow> obj \<Rightarrow> obj" where
  "set_key k v ob = AList.update k v ob"

text \<open>\<open>{...a, ...b}\<close> and \<open>Object.assign(a, b)\<close>: the keys of \<open>b\<close> are assigned in order.\<close>

fun assign_all :: "obj \<Rightarrow> obj \<Rightarrow> obj" where
  "assign_all a [] = a"
| "assign_all a ((k, v) # b) = assign_all (set_key k v a) b"

text \<open>\<open>Object.keys\<close>.\<close>

definition keys :: "obj \<Rightarrow> string list" where
  "keys ob = map fst ob"

text \<open>Reading a path of keys, \<open>v.a.b.c\<close>; \<open>None\<close> where a key is absent.\<close>

fun get_path :: "string list \<Rightarrow> json \<Rightarrow> json option" where
  "get_path [] v = Some v"
| "get_path (k # ks) (JObj ob) = (case get_key k ob of None \<Rightarrow> None | Some w \<Rightarrow> get_path ks w)"
| "get_path (k # ks) _ = None"

section \<open>lodash.merge\<close>

text \<open>
  \<open>merge(object, source)\<close> of the external package \<open>lodash.merge\<close>, after its published
  implementation (\<open>baseMerge\<close>, \<open>baseMergeDeep\<close>, \<open>assignMergeValue\<close>): for each key of the
  source in order,
  \<^item> a source value that is a plain object is merged into the destination's value when that
    is an object, and into a new \<open>{}\<close> otherwise;
  \<^item> a source value that is an array is merged index by index into the destination's value
    when that is an array, and into a new \<open>[]\<close> otherwise;
  \<^item> a source value \<open>undefined\<close> is skipped when the destination has the key;
  \<^item> any other source value is assigned.
  The destination is changed in place: the functions below return its new value, and the
  callers write it back to whatever the destination is shared with. A plain object merged
  into an array leaves the array's elements as they are (lodash adds named properties to the
  array, which this data model does not represent). A source key \<open>__proto__\<close> is merged like
  any other key (current lodash skips it when its value is an object or an array).
\<close>

fun merge_key :: "json option \<Rightarrow> json \<Rightarrow> json"
  and merge_obj :: "obj \<Rightarrow> obj \<Rightarrow> obj"
  and merge_arr :: "json list \<Rightarrow> json list \<Rightarrow> json list"
where
  "merge_key ov (JObj src) =
     (case ov of
        Some (JObj dst) \<Rightarrow> JObj (merge_obj dst src)
      | Some (JArr dst) \<Rightarrow> JArr dst
      | _ \<Rightarrow> JObj (merge_obj [] src))"
| "merge_key ov (JArr src) =
     (case ov of
        Some (JArr dst) \<Rightarrow> JArr (merge_arr dst src)
      | _ \<Rightarrow> JArr (merge_arr [] src))"
| "merge_key ov JUndef = (case ov of Some v \<Rightarrow> v | None \<Rightarrow> JUndef)"
| "merge_key ov JNull = JNull"
| "merge_key ov (JBool b) = JBool b"
| "merge_key ov (JNum n) = JNum n"
| "merge_key ov (JStr s) = JStr s"
| "merge_obj dst [] = dst"
| "merge_obj dst ((k, sv) # src) =
     merge_obj (set_key k (merge_key (get_key k dst) sv) dst) src"
| "merge_arr dst [] = dst"
| "merge_arr [] (sv # src) = merge_key None sv # merge_arr [] src"
| "merge_arr (d # dst) (sv # src) = merge_key (Some d) sv # merge_arr dst src"

text \<open>
  \<open>merge(object, source)\<close> at the top: \<open>Object(object)\<close> makes \<open>{}\<close> of an \<open>undefined\<close>
  destination, and a falsy source is skipped.
\<close>

definition merge :: "obj option \<Rightarrow> obj option \<Rightarrow> obj" where
  "merge object source =
     (let dst = (case object of None \<Rightarrow> [] | Some d \<Rightarrow> d)
      in case source of None \<Rightarrow> dst | Some src \<Rightarrow> merge_obj dst src)"

section \<open>Collaborators and declarations\<close>

text \<open>
  What \<open>utils/open-api.ts\<close> imports from the rest of the package and does not define:
  the constants \<open>DEFAULT_ERRORS.unexpectedError\<close>, \<open>OPEN_API_VERSION\<close> and the values of the
  enum \<open>ValidMethod\<close>, and the schema converters \<open>getJsonSchema\<close> and \<open>getSchemaKeys\<close>.
  They are parameters of the model; \<open>'sch\<close> is the type of schemas.
\<close>

record 'sch collaborators =
  unexpectedError :: string
  OPEN_API_VERSION :: string
  ValidMethod :: "string list"
  getJsonSchema :: "'sch \<Rightarrow> json"
  getSchemaKeys :: "'sch \<Rightarrow> string list"

record 'sch output_entry =
  status :: nat
  contentType :: string
  schema :: 'sch

record 'sch input_decl =
  body :: "'sch option"
  in_contentType :: "string option"
  query :: "'sch option"

record 'sch MethodHandler =
  openApiSpecOverrides :: "obj option"
  tags :: "string list option"
  mh_input :: "'sch input_decl option"
  mh_output :: "'sch output_entry list option"

text \<open>
  The fields \<open>input\<close> and \<open>output\<close> of a handler are \<open>mh_input\<close> and \<open>mh_output\<close> here.
  \<open>DefineEndpointsParams\<close>: the route's own overrides and, in insertion order, the other
  keys of the bundle, each with a handler or \<open>undefined\<close>.
\<close>

record 'sch DefineEndpointsParams =
  ep_openApiSpecOverrides :: "obj option"
  handlers :: "(string \<times> 'sch MethodHandler option) list"

record NextRestFrameworkConfig =
  apiRoutesPath :: "string option"
  openApiJsonPath :: "string option"
  openApiYamlPath :: "string option"
  swaggerUiPath :: "string option"
  cfg_openApiSpecOverrides :: "obj option"

datatype js_error = TypeError | FsError

section \<open>Strings\<close>

text \<open>\<open>s.toLowerCase()\<close> on the letters A to Z, which is what method names are made of.\<close>

definition toLowerCase :: "string \<Rightarrow> string" where
  "toLowerCase s =
     map (\<lambda>c. let n = (of_char c :: nat) in if 65 \<le> n \<and> n \<le> 90 then char_of (n + 32) else c) s"

text \<open>The decimal text of a number, as a computed property key \<open>[status]\<close> has it.\<close>

function string_of_nat :: "nat \<Rightarrow> string" where
  "string_of_nat n =
     (if n < 10 then [char_of (48 + n)]
      else string_of_nat (n div 10) @ [char_of (48 + n mod 10)])"
  by pat_completeness auto
termination
  by (relation "measure id") auto

declare string_of_nat.simps [simp del]

text \<open>
  \<open>route.match(/{([^}]+)}/g)\<close>: from the left, an opening brace, the longest run of
  characters other than a closing brace, which must not be empty, and a closing brace; the
  scan goes on after a match and one character further where there is none.
\<close>

function match_braces :: "string \<Rightarrow> string list" where
  "match_braces [] = []"
| "match_braces (c # cs) =
     (if c = CHR ''{'' then
        (let run = takeWhile (\<lambda>x. x \<noteq> CHR ''}'') cs;
             rest = dropWhile (\<lambda>x. x \<noteq> CHR ''}'') cs
         in if run \<noteq> [] \<and> rest \<noteq> []
            then (c # run @ [CHR ''}'']) # match_braces (tl rest)
            else match_braces cs)
      else match_braces cs)"
  by pat_completeness auto
termination
proof (relation "measure length")
  show "wf (measure length)" by simp
next
  fix c :: char and cs run rest
  assume "rest = dropWhile (\<lambda>x. x \<noteq> CHR ''}'') cs"
  then have "length rest \<le> length cs"
    by (simp add: length_dropWhile_le)
  then have "length (tl rest) \<le> length cs"
    by simp
  then show "(tl rest, c # cs) \<in> measure length" by simp
qed auto

text \<open>\<open>param.replace(/[{}]/g, '')\<close>.\<close>

definition strip_braces :: "string \<Rightarrow> string" where
  "strip_braces s = filter (\<lambda>c. c \<noteq> CHR ''{'' \<and> c \<noteq> CHR ''}'') s"

section \<open>Path synthesis: \<open>getPathsFromMethodHandlers\<close>\<close>

text \<open>
  The exported object \<open>defaultResponse\<close> as the module creates it. It is one object for the
  whole process: every generated operation refers to it, it is not copied. Its current
  value is therefore part of the state that \<open>getPathsFromMethodHandlers\<close> takes and returns.
\<close>

definition defaultResponse :: "'sch collaborators \<Rightarrow> json" where
  "defaultResponse env =
     JObj [(''description'', JStr (unexpectedError env)),
           (''content'', JObj [(''application/json'', JObj [(''schema'',
              JObj [(''type'', JStr ''object''),
                    (''properties'', JObj [(''message'', JObj [(''type'', JStr ''string'')])])])])])]"

text \<open>\<open>{...x}\<close> of an object or of \<open>undefined\<close>.\<close>

definition spread :: "obj option \<Rightarrow> obj" where
  "spread x = (case x of None \<Rightarrow> [] | Some ob \<Rightarrow> assign_all [] ob)"

text \<open>
  The request body content: \<open>input?.body && input?.contentType\<close> holds when both are there
  and the content type is not the empty string.
\<close>

definition requestBodyContent :: "'sch collaborators \<Rightarrow> 'sch input_decl option \<Rightarrow> obj" where
  "requestBodyContent env inp =
     (case inp of
        None \<Rightarrow> []
      | Some i \<Rightarrow>
          (case (body i, in_contentType i) of
             (Some b, Some ct) \<Rightarrow>
               if ct \<noteq> [] then [(ct, JObj [(''schema'', getJsonSchema env b)])] else []
           | _ \<Rightarrow> []))"

text \<open>
  The reducer over \<open>output\<close>: \<open>Object.assign(obj, { [status]: { content: { [contentType]:
  { schema } } } })\<close>, from \<open>{}\<close>; \<open>undefined\<close> when there is no \<open>output\<close>.
\<close>

definition response_entry :: "'sch collaborators \<Rightarrow> 'sch output_entry \<Rightarrow> string \<times> json" where
  "response_entry env e =
     (string_of_nat (status e),
      JObj [(''content'', JObj [(contentType e, JObj [(''schema'', getJsonSchema env (schema e))])])])"

fun reduce_output :: "'sch collaborators \<Rightarrow> obj \<Rightarrow> 'sch output_entry list \<Rightarrow> obj" where
  "reduce_output env ob [] = ob"
| "reduce_output env ob (e # es) = reduce_output env (assign_all ob [response_entry env e]) es"

definition generatedResponses :: "'sch collaborators \<Rightarrow> 'sch output_entry list option \<Rightarrow> obj option" where
  "generatedResponses env out =
     (case out of None \<Rightarrow> None | Some es \<Rightarrow> Some (reduce_output env [] es))"

text \<open>
  \<open>generatedOperationObject\<close> as it stands just before the handler's overrides are merged
  into it; \<open>dr\<close> is the current value of the shared \<open>defaultResponse\<close> object.
\<close>

definition generatedOperationObject ::
  "'sch collaborators \<Rightarrow> json \<Rightarrow> string \<Rightarrow> 'sch MethodHandler \<Rightarrow> obj" where
  "generatedOperationObject env dr route h =
     (let base =
            [(''tags'', (case tags h of None \<Rightarrow> JUndef | Some ts \<Rightarrow> JArr (map JStr ts))),
             (''requestBody'', JObj [(''content'', JObj (requestBodyContent env (mh_input h)))]),
             (''responses'',
                JObj (set_key ''default'' dr (spread (generatedResponses env (mh_output h)))))];
          pathParameters = match_braces route;
          g1 = (if pathParameters \<noteq> []
                then set_key ''parameters''
                       (JArr (map (\<lambda>param. JObj [(''name'', JStr (strip_braces param)),
                                                   (''in'', JStr ''path''),
                                                   (''required'', JBool True)])
                                  pathParameters)) base
                else base)
      in case (case mh_input h of None \<Rightarrow> None | Some i \<Rightarrow> query i) of
           None \<Rightarrow> g1
         | Some q \<Rightarrow>
             set_key ''parameters''
               (JArr ((case get_key ''parameters'' g1 of Some (JArr ps) \<Rightarrow> ps | _ \<Rightarrow> [])
                      @ map (\<lambda>key. JObj [(''name'', JStr key), (''in'', JStr ''query'')])
                            (getSchemaKeys env q))) g1)"

text \<open>
  \<open>merge(generatedOperationObject, openApiSpecOverrides)\<close> changes its first argument in
  place, nested objects included. The operation object and its \<open>responses\<close> are new objects,
  but \<open>responses.default\<close> is the shared \<open>defaultResponse\<close>: when the overrides hold a plain
  object under \<open>responses.default\<close>, lodash merges it into that shared object. This is the
  value of the shared object after the merge. (The handler's own \<open>tags\<close> array is a merge
  destination in the same way; the handlers are inputs here and their later value is not
  returned.)
\<close>

definition defaultResponse_after :: "json \<Rightarrow> obj option \<Rightarrow> json" where
  "defaultResponse_after dr ov =
     (case ov of
        None \<Rightarrow> dr
      | Some src \<Rightarrow>
          (case get_key ''responses'' src of
             Some (JObj r) \<Rightarrow>
               (case get_key ''default'' r of
                  Some (JObj d) \<Rightarrow> merge_key (Some dr) (JObj d)
                | _ \<Rightarrow> dr)
           | _ \<Rightarrow> dr))"

text \<open>The operation stored under the method: the generated object with the overrides merged in.\<close>

definition operation :: "'sch collaborators \<Rightarrow> json \<Rightarrow> string \<Rightarrow> 'sch MethodHandler \<Rightarrow> obj" where
  "operation env dr route h =
     merge (Some (generatedOperationObject env dr route h)) (openApiSpecOverrides h)"

text \<open>\<open>isValidMethod\<close>.\<close>

definition isValidMethod :: "'sch collaborators \<Rightarrow> string \<Rightarrow> bool" where
  "isValidMethod env x = (x \<in> set (ValidMethod env))"

text \<open>
  The object \<open>paths\<close> of the function: its own properties, and the object that an assignment
  \<open>paths['__proto__'] = item\<close> has made its prototype (\<open>None\<close> while it is still
  \<open>Object.prototype\<close>). The only writes to it are \<open>paths[route] = item\<close> with an object
  \<open>item\<close>: for the key \<open>__proto__\<close> that calls the setter inherited from \<open>Object.prototype\<close>
  and adds no own property; for any other key it adds or replaces the own property.
  \<open>paths[route]\<close> reads the same way.
\<close>

type_synonym paths_object = "obj \<times> obj option"

definition assign_route :: "string \<Rightarrow> obj \<Rightarrow> paths_object \<Rightarrow> paths_object" where
  "assign_route route item paths =
     (if route = ''__proto__'' then (fst paths, Some item)
      else (set_key route (JObj item) (fst paths), snd paths))"

definition read_route :: "string \<Rightarrow> paths_object \<Rightarrow> obj option" where
  "read_route route paths =
     (if route = ''__proto__'' then (case snd paths of None \<Rightarrow> Some [] | Some item \<Rightarrow> Some item)
      else (case get_key route (fst paths) of Some (JObj ob) \<Rightarrow> Some ob | _ \<Rightarrow> None))"

text \<open>
  Every generated operation refers to the one shared \<open>defaultResponse\<close> object, and goes on
  doing so after the merge unless the overrides put something else in its place (a value
  under \<open>responses\<close> or under \<open>responses.default\<close> that is not a plain object). An operation
  that still refers to it shows, when \<open>paths\<close> is returned, whatever later merges have made
  of the shared object.
\<close>

definition holds_shared_default :: "obj option \<Rightarrow> bool" where
  "holds_shared_default ov =
     (case ov of
        None \<Rightarrow> True
      | Some src \<Rightarrow>
          (case get_key ''responses'' src of
             None \<Rightarrow> True
           | Some JUndef \<Rightarrow> True
           | Some (JObj r) \<Rightarrow>
               (case get_key ''default'' r of
                  None \<Rightarrow> True
                | Some JUndef \<Rightarrow> True
                | Some (JObj d) \<Rightarrow> True
                | _ \<Rightarrow> False)
           | _ \<Rightarrow> False))"

text \<open>The value of an operation whose \<open>responses.default\<close> is the shared object, now \<open>dr\<close>.\<close>

definition write_default :: "json \<Rightarrow> json \<Rightarrow> json" where
  "write_default dr op =
     (case op of
        JObj ob \<Rightarrow>
          (case get_key ''responses'' ob of
             Some (JObj rs) \<Rightarrow> JObj (set_key ''responses'' (JObj (set_key ''default'' dr rs)) ob)
           | _ \<Rightarrow> op)
      | _ \<Rightarrow> op)"

fun refresh_holders :: "json \<Rightarrow> string list \<Rightarrow> obj \<Rightarrow> obj" where
  "refresh_holders dr [] item = item"
| "refresh_holders dr (m # ms) item =
     refresh_holders dr ms
       (case get_key m item of None \<Rightarrow> item | Some op \<Rightarrow> set_key m (write_default dr op) item)"

text \<open>
  The \<open>forEach\<close> over the bundle's valid method keys. The state is the \<open>paths\<close> object being
  built, the shared \<open>defaultResponse\<close>, and the methods whose operation refers to the shared
  object (\<open>holders\<close>). Destructuring a handler that is \<open>undefined\<close> throws a \<open>TypeError\<close>, which
  ends the call; what was merged into the shared object before stays. What is returned is
  the own properties of \<open>paths\<close>, as \<open>Object.keys\<close>, a spread or \<open>JSON.stringify\<close> see them.
\<close>

fun forEach_method ::
  "'sch collaborators \<Rightarrow> string \<Rightarrow> (string \<times> 'sch MethodHandler option) list \<Rightarrow> paths_object
     \<Rightarrow> json \<Rightarrow> string list \<Rightarrow> (js_error + obj) \<times> json" where
  "forEach_method env route [] paths dr holders = (Inr (fst paths), dr)"
| "forEach_method env route ((m, None) # hs) paths dr holders = (Inl TypeError, dr)"
| "forEach_method env route ((m, Some h) # hs) paths dr holders =
     (let method = toLowerCase m;
          dr' = defaultResponse_after dr (openApiSpecOverrides h);
          item = refresh_holders dr' holders (spread (read_route route paths));
          holders' = (if holds_shared_default (openApiSpecOverrides h)
                      then method # removeAll method holders
                      else removeAll method holders)
      in forEach_method env route hs
           (assign_route route (set_key method (JObj (operation env dr route h)) item) paths)
           dr' holders')"

text \<open>
  \<open>getPathsFromMethodHandlers\<close>, from the current value of the shared \<open>defaultResponse\<close> to
  the own properties of the returned \<open>paths\<close> (or the error thrown) and the shared object's
  value afterwards. \<open>config\<close> is a parameter that the function does not read. An object
  returned by an earlier call keeps referring to the shared object as well; the value
  returned here is the one at the time of the return.
\<close>

definition getPathsFromMethodHandlers ::
  "'sch collaborators \<Rightarrow> json \<Rightarrow> NextRestFrameworkConfig \<Rightarrow> 'sch DefineEndpointsParams \<Rightarrow> string
     \<Rightarrow> (js_error + obj) \<times> json" where
  "getPathsFromMethodHandlers env dr config methodHandlers route =
     (let paths = assign_route route (spread (ep_openApiSpecOverrides methodHandlers)) ([], None)
      in forEach_method env route
           (filter (\<lambda>(m, h). isValidMethod env m) (handlers methodHandlers)) paths dr [])"

section \<open>Route discovery and aggregation: \<open>generatePaths\<close>\<close>

text \<open>
  A directory as \<open>readdirSync(..., { withFileTypes: true })\<close> lists it: files and
  directories by name. A directory that cannot be read (\<open>None\<close>) makes \<open>readdirSync\<close> throw.
\<close>

datatype dirent = File string | Directory string "dirent list option"

text \<open>\<open>path.join\<close> of a directory and a name, with the platform's separator.\<close>

definition join :: "char \<Rightarrow> string \<Rightarrow> string \<Rightarrow> string" where
  "join sep dir name = (if dir = [] then name else dir @ [sep] @ name)"

fun getNestedApiRoutes :: "char \<Rightarrow> dirent list option \<Rightarrow> string \<Rightarrow> js_error + string list"
  and nested_dirents :: "char \<Rightarrow> dirent list \<Rightarrow> string \<Rightarrow> js_error + string list"
where
  "getNestedApiRoutes sep None dir = Inl FsError"
| "getNestedApiRoutes sep (Some dirents) dir = nested_dirents sep dirents dir"
| "nested_dirents sep [] dir = Inr []"
| "nested_dirents sep (File name # ds) dir =
     (case nested_dirents sep ds dir of
        Inl e \<Rightarrow> Inl e
      | Inr files \<Rightarrow> Inr (join sep dir name # files))"
| "nested_dirents sep (Directory name sub # ds) dir =
     (case getNestedApiRoutes sep sub (join sep dir name) of
        Inl e \<Rightarrow> Inl e
      | Inr inner \<Rightarrow>
          (case nested_dirents sep ds dir of
             Inl e \<Rightarrow> Inl e
           | Inr files \<Rightarrow> Inr (inner @ files)))"

text \<open>\<open>s.includes(pat)\<close>.\<close>

fun str_includes :: "string \<Rightarrow> string \<Rightarrow> bool" where
  "str_includes pat [] = (pat = [])"
| "str_includes pat (c # cs) = (take (length pat) (c # cs) = pat \<or> str_includes pat cs)"

text \<open>\<open>s.replace(pat, rep)\<close> with a string pattern: the first occurrence only.\<close>

fun replace_first :: "string \<Rightarrow> string \<Rightarrow> string \<Rightarrow> string" where
  "replace_first pat rep [] = (if pat = [] then rep else [])"
| "replace_first pat rep (c # cs) =
     (if take (length pat) (c # cs) = pat then rep @ drop (length pat) (c # cs)
      else c # replace_first pat rep cs)"

text \<open>\<open>s.replace(/\\/g, '/')\<close>: every backslash.\<close>

definition replace_backslashes :: "string \<Rightarrow> string" where
  "replace_backslashes s = map (\<lambda>c. if c = CHR 0x5C then CHR ''/'' else c) s"

text \<open>\<open>`${p?.split('/').at(-1)}.ts`\<close>; an absent path prints as \<open>undefined\<close>.\<close>

definition reserved_file :: "string option \<Rightarrow> string" where
  "reserved_file p =
     (case p of
        None \<Rightarrow> ''undefined''
      | Some s \<Rightarrow> rev (takeWhile (\<lambda>c. c \<noteq> CHR ''/'') (rev s))) @ ''.ts''"

definition filterApiRoutes :: "NextRestFrameworkConfig \<Rightarrow> string \<Rightarrow> bool" where
  "filterApiRoutes config file =
     (let isCatchAllRoute = str_includes ''...'' file;
          isOpenApiJsonRoute = (file = reserved_file (openApiJsonPath config));
          isOpenApiYamlRoute = (file = reserved_file (openApiYamlPath config));
          isSwaggerUiRoute = (file = reserved_file (swaggerUiPath config))
      in if isCatchAllRoute \<or> isOpenApiJsonRoute \<or> isOpenApiYamlRoute \<or> isSwaggerUiRoute
         then False else True)"

text \<open>The URL pattern of a route file: the chain of \<open>replace\<close> calls on \<open>`/api/${file}`\<close>.\<close>

definition route_of_file :: "string \<Rightarrow> string" where
  "route_of_file file =
     replace_first ''.ts'' []
       (replace_first '']'' ''}''
         (replace_first ''['' ''{''
           (replace_first ''/index'' []
             (replace_backslashes (''/api/'' @ file)))))"

text \<open>
  What one self-probe comes to: \<open>fetch\<close> rejects (a network error, or the abort after 200ms),
  or it resolves with a status and a body. \<open>clearTimeout(abortRequest)\<close> runs as soon as
  \<open>fetch\<close> has resolved, that is once the status and headers are in, so nothing bounds the
  reading of the body: \<open>res.json()\<close> parses it, rejects it, or never settles because the body
  never completes (\<open>Stalls\<close>).
\<close>

datatype probe_body = Malformed | Parsed json | Stalls


datatype probe = NetworkError | Timeout | Response nat probe_body

text \<open>A probe whose callback never settles.\<close>

definition stalls :: "probe \<Rightarrow> bool" where
  "stalls p = (case p of Response st Stalls \<Rightarrow> True | _ \<Rightarrow> False)"

record request_headers =
  x_forwarded_proto :: "string option"
  host :: "string option"

definition probe_url :: "request_headers \<Rightarrow> string \<Rightarrow> string" where
  "probe_url headers route =
     (case x_forwarded_proto headers of None \<Rightarrow> ''http'' | Some p \<Rightarrow> p) @ ''://'' @
     (case host headers of None \<Rightarrow> ''undefined'' | Some h \<Rightarrow> h) @ route"

definition isPathItemObject :: "json \<Rightarrow> bool" where
  "isPathItemObject data =
     (case data of JObj ob \<Rightarrow> get_key ''nextRestFrameworkPaths'' ob \<noteq> None | _ \<Rightarrow> False)"

text \<open>
  The own enumerable properties that \<open>{...v}\<close> copies: the keys of an object, the indices
  of an array or of a string, nothing of any other value.
\<close>

definition indexed :: "json list \<Rightarrow> obj" where
  "indexed xs = map (\<lambda>i. (string_of_nat i, xs ! i)) [0 ..< length xs]"

definition spread_json :: "json \<Rightarrow> obj" where
  "spread_json v =
     (case v of
        JObj ob \<Rightarrow> ob
      | JArr xs \<Rightarrow> indexed xs
      | JStr s \<Rightarrow> indexed (map (\<lambda>c. JStr [c]) s)
      | _ \<Rightarrow> [])"

text \<open>
  The body of one probe's callback, after its \<open>await\<close>s: \<open>paths = { ...paths,
  ...data.nextRestFrameworkPaths }\<close> for a 200 with the expected field, nothing otherwise
  (the \<open>catch\<close> is empty).
\<close>

definition probe_step :: "obj \<Rightarrow> probe \<Rightarrow> obj" where
  "probe_step paths p =
     (case p of
        Response st (Parsed data) \<Rightarrow>
          if st = 200 \<and> isPathItemObject data
          then assign_all (assign_all [] paths)
                 (spread_json (case data of
                                 JObj ob \<Rightarrow>
                                   (case get_key ''nextRestFrameworkPaths'' ob of
                                      Some v \<Rightarrow> v | None \<Rightarrow> JUndef)
                               | _ \<Rightarrow> JUndef))
          else paths
      | _ \<Rightarrow> paths)"

text \<open>
  \<open>Promise.all\<close> over the routes: the callbacks update \<open>paths\<close> one at a time, in the order
  in which the probes settle.
\<close>

fun aggregate :: "(string \<Rightarrow> probe) \<Rightarrow> request_headers \<Rightarrow> obj \<Rightarrow> string list \<Rightarrow> obj" where
  "aggregate fetch headers paths [] = paths"
| "aggregate fetch headers paths (route # routes) =
     aggregate fetch headers (probe_step paths (fetch (probe_url headers route))) routes"

text \<open>
  \<open>generatePaths\<close>. \<open>tree\<close> is the directory at \<open>join(process.cwd(), apiRoutesPath ?? '')\<close>,
  \<open>fetch\<close> is the network, and \<open>settle\<close> puts the routes in the order in which their probes
  settle (some rearrangement). \<open>await Promise.all\<close> waits for every callback: the result is
  \<open>None\<close> when the function never returns, which is so when one of the callbacks never
  settles; otherwise it is the error thrown or the \<open>paths\<close> returned.
\<close>

definition generatePaths ::
  "char \<Rightarrow> dirent list option \<Rightarrow> (string \<Rightarrow> probe) \<Rightarrow> (string list \<Rightarrow> string list)
     \<Rightarrow> NextRestFrameworkConfig \<Rightarrow> request_headers \<Rightarrow> (js_error + obj) option" where
  "generatePaths sep tree fetch settle config headers =
     (case getNestedApiRoutes sep tree [] of
        Inl e \<Rightarrow> Some (Inl e)
      | Inr files \<Rightarrow>
          (let apiRoutes = map route_of_file (filter (filterApiRoutes config) files)
           in if list_ex (\<lambda>route. stalls (fetch (probe_url headers route))) apiRoutes then None
              else Some (Inr (aggregate fetch headers [] (settle apiRoutes)))))"

section \<open>The spec cache and store: \<open>getOrCreateOpenApiSpec\<close>\<close>

text \<open>
  \<open>isEqualWith(a, b)\<close> of \<open>lodash.isequalwith\<close>, called with no customizer: deep equality.
  Two objects are equal when they have as many keys and every key of the first is a key of
  the second with an equal value, whatever the order of the keys; two arrays are equal when
  they have the same length and equal elements index by index.
\<close>

fun isEqual :: "json \<Rightarrow> json \<Rightarrow> bool"
  and isEqual_obj :: "obj \<Rightarrow> obj \<Rightarrow> bool"
  and isEqual_arr :: "json list \<Rightarrow> json list \<Rightarrow> bool"
where
  "isEqual (JObj a) (JObj b) = (length a = length b \<and> isEqual_obj a b)"
| "isEqual (JArr a) (JArr b) = isEqual_arr a b"
| "isEqual x y = (x = y)"
| "isEqual_obj [] b = True"
| "isEqual_obj ((k, v) # a) b =
     ((case map_of b k of None \<Rightarrow> False | Some w \<Rightarrow> isEqual v w) \<and> isEqual_obj a b)"
| "isEqual_arr [] [] = True"
| "isEqual_arr (x # xs) (y # ys) = (isEqual x y \<and> isEqual_arr xs ys)"
| "isEqual_arr _ _ = False"

text \<open>
  \<open>JSON.parse(JSON.stringify(v))\<close>: what is read back from a file that \<open>v\<close> was written to.
  A key whose value is \<open>undefined\<close> is not written; \<open>undefined\<close> in an array is written as
  \<open>null\<close>.
\<close>

fun parse_stringify :: "json \<Rightarrow> json"
  and parse_stringify_obj :: "obj \<Rightarrow> obj"
  and parse_stringify_arr :: "json list \<Rightarrow> json list"
where
  "parse_stringify (JObj ob) = JObj (parse_stringify_obj ob)"
| "parse_stringify (JArr xs) = JArr (parse_stringify_arr xs)"
| "parse_stringify JUndef = JNull"
| "parse_stringify JNull = JNull"
| "parse_stringify (JBool b) = JBool b"
| "parse_stringify (JNum n) = JNum n"
| "parse_stringify (JStr s) = JStr s"
| "parse_stringify_obj [] = []"
| "parse_stringify_obj ((k, v) # ob) =
     (if v = JUndef then parse_stringify_obj ob else (k, parse_stringify v) # parse_stringify_obj ob)"
| "parse_stringify_arr [] = []"
| "parse_stringify_arr (x # xs) = parse_stringify x # parse_stringify_arr xs"

text \<open>
  The file \<open>openapi.json\<close> in the working directory: it cannot be read or parsed, or it
  holds text that \<open>JSON.parse\<close> turns into a value.
\<close>

datatype file_content = Unreadable | Holds json

text \<open>
  The state of the process around a call:
  \<^item> \<open>spec_file\<close>, the file, and whether \<open>writeFileSync\<close> on it succeeds;
  \<^item> \<open>global.openApiSpec\<close> (\<open>JUndef\<close> until it is first set) and
    \<open>global.apiSpecGeneratedLogged\<close>;
  \<^item> \<open>shares_paths\<close>: \<open>global.openApiSpec.paths\<close> is the very object
    \<open>config.openApiSpecOverrides.paths\<close>, which is so after \<open>global.openApiSpec = newSpec\<close> when
    the configuration has a \<open>paths\<close> object, since \<open>merge\<close> returns its first argument;
  \<^item> the lines written by \<open>console.info\<close>, oldest first, and the number of calls of
    \<open>writeFileSync\<close> that returned.
  The configuration object is the same on every call; its value is passed in and returned.
\<close>

record process_state =
  spec_file :: file_content
  writable :: bool
  openApiSpec :: json
  shares_paths :: bool
  apiSpecGeneratedLogged :: bool
  console :: "string list"
  writes :: nat

text \<open>The \<open>try\<close> block at the top: read and parse the file; \<open>specFileFound\<close> is the result.\<close>

definition read_spec_file :: "process_state \<Rightarrow> process_state \<times> bool" where
  "read_spec_file st =
     (case spec_file st of
        Holds j \<Rightarrow> (st\<lparr>openApiSpec := j, shares_paths := False\<rparr>, True)
      | Unreadable \<Rightarrow> (st, False))"

text \<open>\<open>config.openApiSpecOverrides?.paths\<close> when it is an object.\<close>

definition config_paths :: "NextRestFrameworkConfig \<Rightarrow> obj option" where
  "config_paths config =
     (case cfg_openApiSpecOverrides config of
        None \<Rightarrow> None
      | Some ov \<Rightarrow> (case get_key ''paths'' ov of Some (JObj p) \<Rightarrow> Some p | _ \<Rightarrow> None))"

text \<open>
  \<open>merge(config.openApiSpecOverrides?.paths, paths)\<close> changes its first argument in place:
  the configuration after the call.
\<close>

definition config_after_merge :: "NextRestFrameworkConfig \<Rightarrow> obj \<Rightarrow> NextRestFrameworkConfig" where
  "config_after_merge config merged =
     (case config_paths config of
        None \<Rightarrow> config
      | Some p \<Rightarrow>
          config\<lparr>cfg_openApiSpecOverrides :=
            map_option (set_key ''paths'' (JObj merged)) (cfg_openApiSpecOverrides config)\<rparr>)"

text \<open>\<dots> and \<open>global.openApiSpec\<close> after it, when its \<open>paths\<close> is that same object.\<close>

definition spec_after_merge :: "NextRestFrameworkConfig \<Rightarrow> obj \<Rightarrow> process_state \<Rightarrow> process_state" where
  "spec_after_merge config merged st =
     (if shares_paths st \<and> config_paths config \<noteq> None
      then (case openApiSpec st of
              JObj ob \<Rightarrow> st\<lparr>openApiSpec := JObj (set_key ''paths'' (JObj merged) ob)\<rparr>
            | _ \<Rightarrow> st)
      else st)"

definition newSpec :: "'sch collaborators \<Rightarrow> NextRestFrameworkConfig \<Rightarrow> obj \<Rightarrow> obj" where
  "newSpec env config merged =
     set_key ''paths'' (JObj merged)
       (set_key ''openapi'' (JStr (OPEN_API_VERSION env))
         (spread (cfg_openApiSpecOverrides config)))"

text \<open>The branch taken when the cached document and \<open>newSpec\<close> are not equal.\<close>

definition regenerate ::
  "bool \<Rightarrow> NextRestFrameworkConfig \<Rightarrow> obj \<Rightarrow> process_state \<Rightarrow> (js_error + json) \<times> process_state" where
  "regenerate specFileFound config spec st =
     (let st1 = st\<lparr>console := console st @
                   [if \<not> specFileFound then ''No API spec found, generating openapi.json''
                    else ''API spec changed, regenerating openapi.json'']\<rparr>
      in if \<not> writable st1 then (Inl FsError, st1)
         else
           (let st2 = st1\<lparr>spec_file := Holds (parse_stringify (JObj spec)), writes := Suc (writes st1)\<rparr>;
                st3 = (if \<not> apiSpecGeneratedLogged st2
                       then st2\<lparr>console := console st2 @ [''API spec generated successfully!'']\<rparr>
                       else st2);
                st4 = st3\<lparr>openApiSpec := JObj spec, shares_paths := (config_paths config \<noteq> None),
                          apiSpecGeneratedLogged := True\<rparr>
            in (Inr (openApiSpec st4), st4)))"

text \<open>The branch taken when they are equal.\<close>

definition up_to_date :: "process_state \<Rightarrow> (js_error + json) \<times> process_state" where
  "up_to_date st =
     (let st1 = (if \<not> apiSpecGeneratedLogged st
                 then st\<lparr>console := console st @ [''API spec up to date, skipping generation.'']\<rparr>
                 else st);
          st2 = st1\<lparr>apiSpecGeneratedLogged := True\<rparr>
      in (Inr (openApiSpec st2), st2))"

text \<open>
  \<open>getOrCreateOpenApiSpec\<close>. \<open>production\<close> is \<open>process.env.NODE_ENV === 'production'\<close>; the
  parameters of \<open>generatePaths\<close> are passed through. The result is the value returned or the
  error thrown (\<open>None\<close> when the call never returns, because \<open>generatePaths\<close> does not), the
  configuration after the call and the state after the call.
\<close>

definition getOrCreateOpenApiSpec ::
  "'sch collaborators \<Rightarrow> bool \<Rightarrow> char \<Rightarrow> dirent list option \<Rightarrow> (string \<Rightarrow> probe)
     \<Rightarrow> (string list \<Rightarrow> string list) \<Rightarrow> request_headers
     \<Rightarrow> NextRestFrameworkConfig \<Rightarrow> process_state
     \<Rightarrow> (js_error + json) option \<times> NextRestFrameworkConfig \<times> process_state" where
  "getOrCreateOpenApiSpec env production sep tree fetch settle headers config st =
     (let (st1, specFileFound) = read_spec_file st
      in if \<not> production then
           (case generatePaths sep tree fetch settle config headers of
              None \<Rightarrow> (None, config, st1)
            | Some (Inl e) \<Rightarrow> (Some (Inl e), config, st1)
            | Some (Inr paths) \<Rightarrow>
                (let merged = merge (config_paths config) (Some paths);
                     spec = newSpec env config merged;
                     config' = config_after_merge config merged;
                     st2 = spec_after_merge config merged st1;
                     (res, st3) = (if \<not> isEqual (openApiSpec st2) (JObj spec)
                                   then regenerate specFileFound config spec st2
                                   else up_to_date st2)
                 in (Some res, config', st3)))
         else (Some (Inr (openApiSpec st1)), config, st1))"

section \<open>Concrete inputs\<close>

text \<open>
  Collaborators for the examples: a schema is its own JSON Schema, and its keys are those of
  the object. The methods are those of the package's \<open>ValidMethod\<close> enum.
\<close>

definition ex_env :: "json collaborators" where
  "ex_env =
     \<lparr>unexpectedError = ''Something went wrong'',
      OPEN_API_VERSION = ''3.0.1'',
      ValidMethod = [''GET'', ''PUT'', ''POST'', ''DELETE'', ''OPTIONS'', ''HEAD'', ''PATCH''],
      getJsonSchema = (\<lambda>s. s),
      getSchemaKeys = (\<lambda>s. case s of JObj ob \<Rightarrow> keys ob | _ \<Rightarrow> [])\<rparr>"

definition ex_config :: NextRestFrameworkConfig where
  "ex_config =
     \<lparr>apiRoutesPath = Some ''pages/api'',
      openApiJsonPath = Some ''/api/openapi.json'',
      openApiYamlPath = Some ''/api/openapi.yaml'',
      swaggerUiPath = Some ''/api'',
      cfg_openApiSpecOverrides = None\<rparr>"

text \<open>A handler that declares nothing.\<close>

definition ex_plain :: "json MethodHandler" where
  "ex_plain = \<lparr>openApiSpecOverrides = None, tags = None, mh_input = None, mh_output = None\<rparr>"

text \<open>A handler with two outputs for status 200, one per content type.\<close>

definition ex_two_content_types :: "json MethodHandler" where
  "ex_two_content_types =
     \<lparr>openApiSpecOverrides = None, tags = None, mh_input = None,
      mh_output = Some [\<lparr>status = 200, contentType = ''application/json'', schema = JStr ''A''\<rparr>,
                        \<lparr>status = 200, contentType = ''text/plain'', schema = JStr ''B''\<rparr>]\<rparr>"

text \<open>A handler whose overrides describe the default response.\<close>

definition ex_custom_default :: "json MethodHandler" where
  "ex_custom_default =
     \<lparr>openApiSpecOverrides =
        Some [(''responses'', JObj [(''default'', JObj [(''description'', JStr ''Custom error'')])])],
      tags = None, mh_input = None, mh_output = None\<rparr>"

text \<open>The \<open>paths\<close> object that a call returned, for reading a place in it.\<close>

definition returned_paths :: "(js_error + obj) \<times> json \<Rightarrow> json" where
  "returned_paths r = (case fst r of Inr paths \<Rightarrow> JObj paths | Inl e \<Rightarrow> JUndef)"

text \<open>
  A probe that fails, in the words of the specification: a network error, a timeout, a body
  that is not JSON, a status other than 200, or a body without the field
  \<open>nextRestFrameworkPaths\<close>.
\<close>

definition probe_failed :: "probe \<Rightarrow> bool" where
  "probe_failed p =
     (case p of
        NetworkError \<Rightarrow> True
      | Timeout \<Rightarrow> True
      | Response st Malformed \<Rightarrow> True
      | Response st Stalls \<Rightarrow> False
      | Response st (Parsed data) \<Rightarrow>
          st \<noteq> 200 \<or>
          (case data of JObj ob \<Rightarrow> ''nextRestFrameworkPaths'' \<notin> set (keys ob) | _ \<Rightarrow> True))"

text \<open>
  A directory with two route files, and a network on which the first route answers 500 and
  the second answers 200 with its fragment.
\<close>

definition ex_tree :: "dirent list option" where
  "ex_tree = Some [File ''a.ts'', File ''b.ts'']"

definition ex_headers :: request_headers where
  "ex_headers = \<lparr>x_forwarded_proto = None, host = Some ''localhost:3000''\<rparr>"

definition ex_fragment_b :: json where
  "ex_fragment_b = JObj [(''post'', JObj [(''tags'', JArr [JStr ''x'', JStr ''y''])])]"

definition ex_fetch :: "string \<Rightarrow> probe" where
  "ex_fetch url =
     (if url = ''http://localhost:3000/api/a''
      then Response 500 (Parsed (JObj [(''message'', JStr ''Something went wrong'')]))
      else if url = ''http://localhost:3000/api/b''
      then Response 200 (Parsed (JObj [(''nextRestFrameworkPaths'', JObj [(''/api/b'', ex_fragment_b)])]))
      else NetworkError)"

text \<open>
  A value that JSON text denotes, which is what \<open>res.json()\<close> and \<open>JSON.parse\<close> return:
  no \<open>undefined\<close> anywhere, and an object has one entry per key.
\<close>

fun is_json :: "json \<Rightarrow> bool"
  and is_json_obj :: "obj \<Rightarrow> bool"
  and is_json_arr :: "json list \<Rightarrow> bool"
where
  "is_json (JObj ob) = (distinct (map fst ob) \<and> is_json_obj ob)"
| "is_json (JArr xs) = is_json_arr xs"
| "is_json JUndef = False"
| "is_json JNull = True"
| "is_json (JBool b) = True"
| "is_json (JNum n) = True"
| "is_json (JStr s) = True"
| "is_json_obj [] = True"
| "is_json_obj ((k, v) # ob) = (is_json v \<and> is_json_obj ob)"
| "is_json_arr [] = True"
| "is_json_arr (x # xs) = (is_json x \<and> is_json_arr xs)"


text \<open>
  A process that has just started, with no \<open>openapi.json\<close> yet, and one that starts with a
  file.
\<close>

definition ex_fresh :: process_state where
  "ex_fresh =
     \<lparr>spec_file = Unreadable, writable = True, openApiSpec = JUndef, shares_paths = False,
      apiSpecGeneratedLogged = False, console = [], writes = 0\<rparr>"

definition ex_doc_a :: json where
  "ex_doc_a = JObj [(''openapi'', JStr ''3.0.1''), (''paths'', JObj [(''/api/a'', JObj [])])]"

definition ex_doc_b :: json where
  "ex_doc_b = JObj [(''openapi'', JStr ''3.0.1''), (''paths'', JObj [(''/api/b'', ex_fragment_b)])]"

definition ex_with_file :: "json \<Rightarrow> process_state" where
  "ex_with_file doc = ex_fresh\<lparr>spec_file := Holds doc\<rparr>"

text \<open>A call in production and a call in development, on the example directory and network.\<close>

definition ex_production ::
  "NextRestFrameworkConfig \<Rightarrow> process_state
     \<Rightarrow> (js_error + json) option \<times> NextRestFrameworkConfig \<times> process_state" where
  "ex_production config st =
     getOrCreateOpenApiSpec ex_env True CHR ''/'' ex_tree ex_fetch (\<lambda>routes. routes) ex_headers config st"

definition ex_development ::
  "NextRestFrameworkConfig \<Rightarrow> process_state
     \<Rightarrow> (js_error + json) option \<times> NextRestFrameworkConfig \<times> process_state" where
  "ex_development config st =
     getOrCreateOpenApiSpec ex_env False CHR ''/'' ex_tree ex_fetch (\<lambda>routes. routes) ex_headers config st"

text \<open>Configurations with static overrides: an empty \<open>paths\<close> object, and an absent \<open>info\<close>.\<close>

definition ex_config_paths :: NextRestFrameworkConfig where
  "ex_config_paths = ex_config\<lparr>cfg_openApiSpecOverrides := Some [(''paths'', JObj [])]\<rparr>"



text \<open>The state after a first development call of a process that has just started.\<close>

definition ex_after_first :: "NextRestFrameworkConfig \<Rightarrow> process_state" where
  "ex_after_first config = snd (snd (ex_development config ex_fresh))"

section \<open>Notions used in the statements\<close>







text \<open>
  A network on which the first route sends status and headers and never completes its body,
  and one on which both routes answer for the same key, with different values.
\<close>

definition ex_fetch_stalled :: "string \<Rightarrow> probe" where
  "ex_fetch_stalled url =
     (if url = ''http://localhost:3000/api/a'' then Response 200 Stalls else ex_fetch url)"

definition ex_fetch_same_key :: "string \<Rightarrow> probe" where
  "ex_fetch_same_key url =
     (if url = ''http://localhost:3000/api/a''
      then Response 200 (Parsed (JObj [(''nextRestFrameworkPaths'', JObj [(''/api/x'', JObj [])])]))
      else if url = ''http://localhost:3000/api/b''
      then Response 200 (Parsed (JObj [(''nextRestFrameworkPaths'', JObj [(''/api/x'', ex_fragment_b)])]))
      else NetworkError)"

text \<open>A development call with a given network and order of settling.\<close>

definition ex_development_with ::
  "(string \<Rightarrow> probe) \<Rightarrow> (string list \<Rightarrow> string list) \<Rightarrow> NextRestFrameworkConfig \<Rightarrow> process_state
     \<Rightarrow> (js_error + json) option \<times> NextRestFrameworkConfig \<times> process_state" where
  "ex_development_with fetch settle config st =
     getOrCreateOpenApiSpec ex_env False CHR ''/'' ex_tree fetch settle ex_headers config st"


section \<open>Facts about objects, keys and numbers\<close>

lemma set_key_fresh: "k \<notin> fst ` set a \<Longrightarrow> set_key k v a = a @ [(k, v)]"
  by (induction a) (auto simp: set_key_def)

lemma assign_all_distinct: "distinct (map fst (a @ b)) \<Longrightarrow> assign_all a b = a @ b"
proof (induction b arbitrary: a)
  case Nil then show ?case by simp
next
  case (Cons x b)
  obtain k v where x: "x = (k, v)" by (cases x)
  from Cons.prems x have fresh: "k \<notin> fst ` set a" by auto
  have "distinct (map fst ((a @ [(k, v)]) @ b))" using Cons.prems x by auto
  from Cons.IH [OF this] show ?case using x fresh by (simp add: set_key_fresh)
qed

lemma assign_all_single: "assign_all ob [x] = set_key (fst x) (snd x) ob"
  by (cases x) simp

lemma get_key_set_key: "get_key k (set_key k' v ob) = (if k = k' then Some v else get_key k ob)"
  by (simp add: get_key_def set_key_def update_conv')

lemma distinct_set_key: "distinct (map fst ob) \<Longrightarrow> distinct (map fst (set_key k v ob))"
  by (simp add: set_key_def distinct_update)

lemma keys_set_key_single: "keys paths = [route] \<Longrightarrow> keys (set_key route v paths) = [route]"
  by (cases paths) (auto simp: keys_def set_key_def)

lemma string_of_nat_nonempty: "string_of_nat n \<noteq> []"
  by (subst string_of_nat.simps) simp

lemma char_of_digit_inj: "a < 10 \<Longrightarrow> b < 10 \<Longrightarrow> (char_of (48 + a :: nat) :: char) = char_of (48 + b) \<Longrightarrow> a = b"
proof -
  assume a: "a < 10" and b: "b < 10" and e: "(char_of (48 + a :: nat) :: char) = char_of (48 + b)"
  from e have "(of_char (char_of (48 + a) :: char) :: nat) = of_char (char_of (48 + b) :: char)" by simp
  then have "(48 + a) mod 256 = (48 + b) mod 256" by (simp only: of_char_of)
  moreover have "(48 + a) mod 256 = 48 + a" "(48 + b) mod 256 = 48 + b" using a b by simp_all
  ultimately show ?thesis by linarith
qed

lemma string_of_nat_inj: "string_of_nat m = string_of_nat n \<Longrightarrow> m = n"
proof (induction m arbitrary: n rule: string_of_nat.induct)
  case (1 m)
  show ?case
  proof (cases "m < 10")
    case True
    then have m: "string_of_nat m = [char_of (48 + m)]" by (subst string_of_nat.simps) simp
    show ?thesis
    proof (cases "n < 10")
      case True
      then have "string_of_nat n = [char_of (48 + n)]" by (subst string_of_nat.simps) simp
      with m "1.prems" have "(char_of (48 + m) :: char) = char_of (48 + n)" by simp
      with \<open>m < 10\<close> True show ?thesis by (intro char_of_digit_inj)
    next
      case False
      then have "string_of_nat n = string_of_nat (n div 10) @ [char_of (48 + n mod 10)]"
        by (subst string_of_nat.simps) simp
      with m "1.prems" have "string_of_nat (n div 10) = []" by simp
      then show ?thesis by (simp add: string_of_nat_nonempty)
    qed
  next
    case False
    then have m: "string_of_nat m = string_of_nat (m div 10) @ [char_of (48 + m mod 10)]"
      by (subst string_of_nat.simps) simp
    show ?thesis
    proof (cases "n < 10")
      case True
      then have "string_of_nat n = [char_of (48 + n)]" by (subst string_of_nat.simps) simp
      with m "1.prems" have "string_of_nat (m div 10) = []" by simp
      then show ?thesis by (simp add: string_of_nat_nonempty)
    next
      case nb: False
      then have "string_of_nat n = string_of_nat (n div 10) @ [char_of (48 + n mod 10)]"
        by (subst string_of_nat.simps) simp
      with m "1.prems" have e1: "string_of_nat (m div 10) = string_of_nat (n div 10)"
        and e2: "(char_of (48 + m mod 10) :: char) = char_of (48 + n mod 10)" by simp_all
      from "1.IH" [OF False e1] have d: "m div 10 = n div 10" .
      have "m mod 10 = n mod 10" by (rule char_of_digit_inj [OF _ _ e2]) simp_all
      with d show ?thesis by (metis div_mult_mod_eq)
    qed
  qed
qed

lemma string_of_nat_last: "last (string_of_nat n) = char_of (48 + n mod 10)"
  by (subst string_of_nat.simps) (simp add: string_of_nat_nonempty)

lemma string_of_nat_not_default: "string_of_nat n \<noteq> ''default''"
proof
  assume "string_of_nat n = ''default''"
  then have "last (string_of_nat n) = CHR ''t''" by simp
  then have "(char_of (48 + n mod 10) :: char) = CHR ''t''" by (simp add: string_of_nat_last)
  then have "(of_char (char_of (48 + n mod 10) :: char) :: nat) = of_char (CHR ''t'')" by simp
  then have e: "(48 + n mod 10) mod 256 = (116::nat)" by (simp only: of_char_of) simp
  have lt: "n mod 10 < 10" by simp
  then have "(48 + n mod 10) mod 256 = 48 + n mod 10" by simp
  with e lt show False by linarith
qed

section \<open>Properties of path synthesis\<close>

lemma distinct_reduce_output:
  "distinct (map fst ob) \<Longrightarrow> distinct (map fst (reduce_output env ob es))"
  by (induction es arbitrary: ob) (simp_all add: distinct_set_key assign_all_single)

lemma get_key_reduce_output:
  "get_key k (reduce_output env ob es) =
     (case filter (\<lambda>e. string_of_nat (status e) = k) es of
        [] \<Rightarrow> get_key k ob
      | f # fs \<Rightarrow> Some (snd (response_entry env (last (f # fs)))))"
proof (induction es arbitrary: ob)
  case Nil
  then show ?case by simp
next
  case (Cons e es)
  show ?case
    by (simp add: Cons.IH get_key_set_key assign_all_single response_entry_def split: list.splits)
qed

lemma get_key_merge_obj_other:
  "k \<notin> fst ` set src \<Longrightarrow> get_key k (merge_obj dst src) = get_key k dst"
  by (induction src arbitrary: dst) (auto simp: get_key_set_key)

lemma get_key_responses_generated:
  "get_key ''responses'' (generatedOperationObject env dr route h) =
     Some (JObj (set_key ''default'' dr (spread (generatedResponses env (mh_output h)))))"
  by (simp add: generatedOperationObject_def Let_def get_key_set_key split: option.splits)
    (simp add: get_key_def)

lemma forEach_method_keys:
  "route \<noteq> ''__proto__'' \<Longrightarrow> keys (fst paths) = [route]
     \<Longrightarrow> forEach_method env route hs paths dr holders = (Inr paths', dr')
     \<Longrightarrow> keys paths' = [route]"
proof (induction hs arbitrary: paths dr holders)
  case Nil
  then show ?case by simp
next
  case (Cons a hs)
  obtain m oh where a: "a = (m, oh)" by (cases a)
  show ?case
  proof (cases oh)
    case None
    with Cons.prems a show ?thesis by simp
  next
    case (Some h)
    show ?thesis
    proof (rule Cons.IH [OF Cons.prems(1)])
      show "forEach_method env route hs
          (assign_route route
             (set_key (toLowerCase m) (JObj (operation env dr route h))
                (refresh_holders (defaultResponse_after dr (openApiSpecOverrides h)) holders
                   (spread (read_route route paths)))) paths)
          (defaultResponse_after dr (openApiSpecOverrides h))
          (if holds_shared_default (openApiSpecOverrides h)
           then toLowerCase m # removeAll (toLowerCase m) holders
           else removeAll (toLowerCase m) holders) = (Inr paths', dr')"
        using Cons.prems(3) a Some by (simp add: Let_def)
      show "keys (fst (assign_route route
             (set_key (toLowerCase m) (JObj (operation env dr route h))
                (refresh_holders (defaultResponse_after dr (openApiSpecOverrides h)) holders
                   (spread (read_route route paths)))) paths)) = [route]"
        using Cons.prems(1,2) by (simp add: assign_route_def keys_set_key_single)
    qed
  qed
qed

lemma forEach_method_proto:
  "fst paths = [] \<Longrightarrow> forEach_method env ''__proto__'' hs paths dr holders = (Inr paths', dr')
     \<Longrightarrow> paths' = []"
proof (induction hs arbitrary: paths dr holders)
  case Nil
  then show ?case by auto
next
  case (Cons a hs)
  obtain m oh where a: "a = (m, oh)" by (cases a)
  show ?case
  proof (cases oh)
    case None
    with Cons.prems a show ?thesis by simp
  next
    case (Some h)
    show ?thesis
    proof (rule Cons.IH)
      show "forEach_method env ''__proto__'' hs
          (assign_route ''__proto__''
             (set_key (toLowerCase m) (JObj (operation env dr ''__proto__'' h))
                (refresh_holders (defaultResponse_after dr (openApiSpecOverrides h)) holders
                   (spread (read_route ''__proto__'' paths)))) paths)
          (defaultResponse_after dr (openApiSpecOverrides h))
          (if holds_shared_default (openApiSpecOverrides h)
           then toLowerCase m # removeAll (toLowerCase m) holders
           else removeAll (toLowerCase m) holders) = (Inr paths', dr')"
        using Cons.prems(2) a Some by (simp add: Let_def)
      show "fst (assign_route ''__proto__''
             (set_key (toLowerCase m) (JObj (operation env dr ''__proto__'' h))
                (refresh_holders (defaultResponse_after dr (openApiSpecOverrides h)) holders
                   (spread (read_route ''__proto__'' paths)))) paths) = []"
        using Cons.prems(1) by (simp add: assign_route_def)
    qed
  qed
qed

text \<open>
  Claim C10, as the code has it. \<open>paths[route] = ...\<close> is an ordinary assignment, and for
  the key \<open>__proto__\<close> an ordinary assignment calls the setter inherited from
  \<open>Object.prototype\<close>: the item becomes the prototype of \<open>paths\<close>. First the claim as written,
  refuted: for that route string the returned object has no key.
\<close>

theorem proto_route_has_no_key:
  "fst (getPathsFromMethodHandlers ex_env (defaultResponse ex_env) ex_config
       \<lparr>ep_openApiSpecOverrides = None, handlers = [(''GET'', Some ex_plain)]\<rparr> ''__proto__'')
     = Inr []"
  by (simp add: getPathsFromMethodHandlers_def isValidMethod_def ex_env_def assign_route_def Let_def)

text \<open>
  Claim C10, amended. Whatever the configuration and the bundle, for every route string
  other than \<open>__proto__\<close> the \<open>paths\<close> object that \<open>getPathsFromMethodHandlers\<close> returns has
  exactly one key, the route it was given; for \<open>__proto__\<close> it has none.
\<close>

theorem getPaths_single_key:
  "getPathsFromMethodHandlers env dr config methodHandlers route = (Inr paths, dr')
     \<Longrightarrow> keys paths = (if route = ''__proto__'' then [] else [route])"
proof (cases "route = ''__proto__''")
  case True
  assume "getPathsFromMethodHandlers env dr config methodHandlers route = (Inr paths, dr')"
  then have "paths = []"
    unfolding getPathsFromMethodHandlers_def Let_def True
    by (rule forEach_method_proto [rotated]) (simp add: assign_route_def)
  then show ?thesis using True by (simp add: keys_def)
next
  case False
  assume "getPathsFromMethodHandlers env dr config methodHandlers route = (Inr paths, dr')"
  then have "keys paths = [route]"
    unfolding getPathsFromMethodHandlers_def Let_def
    by (rule forEach_method_keys [OF False, rotated]) (simp add: False assign_route_def keys_def set_key_def)
  then show ?thesis using False by simp
qed

theorem getPaths_single_key_witness:
  "map_sum id keys (fst (getPathsFromMethodHandlers ex_env (defaultResponse ex_env) ex_config
       \<lparr>ep_openApiSpecOverrides = None,
        handlers = [(''GET'', Some ex_plain), (''POST'', Some ex_two_content_types)]\<rparr>
       ''/api/a'')) = Inr [''/api/a'']"
proof -
  let ?r = "getPathsFromMethodHandlers ex_env (defaultResponse ex_env) ex_config
       \<lparr>ep_openApiSpecOverrides = None,
        handlers = [(''GET'', Some ex_plain), (''POST'', Some ex_two_content_types)]\<rparr>
       ''/api/a''"
  have "isl (fst ?r) = False" by code_simp
  then obtain paths dr' where r: "?r = (Inr paths, dr')"
    by (cases ?r; cases "fst ?r") auto
  from getPaths_single_key [OF r] show ?thesis
    by (simp add: r)
qed

text \<open>
  Claim C1, as the code has it. The reducer assigns \<open>{ content: { [contentType]: ... } }\<close>
  to the key of the status, so a later output entry replaces an earlier one of the same
  status whatever their content types. First the claim as written, refuted: of two entries
  for status 200, only the content type of the second is left.
\<close>

theorem same_status_overwrites:
  "get_path [''/api/a'', ''get'', ''responses'', ''200'', ''content'']
     (returned_paths (getPathsFromMethodHandlers ex_env (defaultResponse ex_env) ex_config
        \<lparr>ep_openApiSpecOverrides = None, handlers = [(''GET'', Some ex_two_content_types)]\<rparr>
        ''/api/a''))
   = Some (JObj [(''text/plain'', JObj [(''schema'', JStr ''B'')])])"
  by code_simp

text \<open>
  Claim C1, amended. For a handler whose overrides do not touch \<open>responses\<close>, and for every
  entry of its output list, the operation's response for that entry's status is the one
  built from the last entry of the list with the same status, with that entry's content type
  alone. Entries of different statuses are therefore all kept.
\<close>

theorem output_last_wins_per_status:
  assumes out: "mh_output h = Some es"
    and e: "e \<in> set es"
    and ov: "\<forall>src. openApiSpecOverrides h = Some src \<longrightarrow> ''responses'' \<notin> fst ` set src"
  shows "get_path [''responses'', string_of_nat (status e)] (JObj (operation env dr route h)) =
     Some (JObj [(''content'',
       JObj [(contentType (last (filter (\<lambda>e'. status e' = status e) es)),
              JObj [(''schema'',
                getJsonSchema env (schema (last (filter (\<lambda>e'. status e' = status e) es))))])])])"
proof -
  let ?g = "generatedOperationObject env dr route h"
  let ?k = "string_of_nat (status e)"
  let ?ro = "reduce_output env [] es"
  have r: "get_key ''responses'' (operation env dr route h) = get_key ''responses'' ?g"
    using ov by (cases "openApiSpecOverrides h") (simp_all add: operation_def merge_def get_key_merge_obj_other)
  have "distinct (map fst ?ro)" by (rule distinct_reduce_output) simp
  then have sp: "spread (Some ?ro) = ?ro"
    using assign_all_distinct [of "[]" ?ro] by (simp add: spread_def)
  have f: "filter (\<lambda>e'. string_of_nat (status e') = ?k) es = filter (\<lambda>e'. status e' = status e) es"
    by (rule filter_cong) (auto dest: string_of_nat_inj)
  have ne: "filter (\<lambda>e'. status e' = status e) es \<noteq> []"
    using e by (auto simp: filter_empty_conv)
  have "get_key ?k (set_key ''default'' dr ?ro) = get_key ?k ?ro"
    by (simp add: get_key_set_key string_of_nat_not_default)
  also have "\<dots> = Some (snd (response_entry env (last (filter (\<lambda>e'. status e' = status e) es))))"
    using ne by (simp add: get_key_reduce_output f split: list.splits)
  finally show ?thesis
    by (simp add: r get_key_responses_generated generatedResponses_def out sp response_entry_def)
qed

theorem output_last_wins_witness:
  "get_path [''responses'', string_of_nat 200] (JObj (operation ex_env (defaultResponse ex_env) ''/api/a'' ex_two_content_types))
   = Some (JObj [(''content'', JObj [(''text/plain'', JObj [(''schema'', JStr ''B'')])])])"
  using output_last_wins_per_status [of ex_two_content_types
      "[\<lparr>status = 200, contentType = ''application/json'', schema = JStr ''A''\<rparr>,
        \<lparr>status = 200, contentType = ''text/plain'', schema = JStr ''B''\<rparr>]"
      "\<lparr>status = 200, contentType = ''application/json'', schema = JStr ''A''\<rparr>"
      ex_env "defaultResponse ex_env" "''/api/a''"]
  by (simp add: ex_two_content_types_def ex_env_def)

text \<open>
  Claim C9 at a bundle of two methods. The overrides of the first handler are merged into the
  shared \<open>defaultResponse\<close> object, and the operation generated for the second method, which
  has no overrides of its own, carries the changed description, not the fixed one.
\<close>

theorem default_response_overridden_for_next_method:
  "get_path [''/api/a'', ''post'', ''responses'', ''default'', ''description'']
     (returned_paths (getPathsFromMethodHandlers ex_env (defaultResponse ex_env) ex_config
        \<lparr>ep_openApiSpecOverrides = None,
         handlers = [(''GET'', Some ex_custom_default), (''POST'', Some ex_plain)]\<rparr>
        ''/api/a''))
   = Some (JStr ''Custom error'')
   \<and> get_path [''description''] (defaultResponse ex_env) = Some (JStr ''Something went wrong'')"
  by code_simp

text \<open>
  Claim C2 at two calls. The first call leaves the shared \<open>defaultResponse\<close> object changed,
  and a later call for another route returns something else than it returns in a process
  where the first call was not made.
\<close>

theorem getPaths_changes_shared_default:
  "snd (getPathsFromMethodHandlers ex_env (defaultResponse ex_env) ex_config
          \<lparr>ep_openApiSpecOverrides = None, handlers = [(''GET'', Some ex_custom_default)]\<rparr> ''/api/a'')
     \<noteq> defaultResponse ex_env
   \<and> fst (getPathsFromMethodHandlers ex_env
          (snd (getPathsFromMethodHandlers ex_env (defaultResponse ex_env) ex_config
             \<lparr>ep_openApiSpecOverrides = None, handlers = [(''GET'', Some ex_custom_default)]\<rparr> ''/api/a''))
          ex_config \<lparr>ep_openApiSpecOverrides = None, handlers = [(''POST'', Some ex_plain)]\<rparr> ''/api/b'')
     \<noteq> fst (getPathsFromMethodHandlers ex_env (defaultResponse ex_env) ex_config
          \<lparr>ep_openApiSpecOverrides = None, handlers = [(''POST'', Some ex_plain)]\<rparr> ''/api/b'')"
  by code_simp

text \<open>
  The operation generated for an earlier method refers to the shared object too: when the
  overrides of a later handler change the shared object, the earlier operation, as returned,
  shows the change.
\<close>

lemma earlier_operation_shows_later_override:
  "get_path [''/api/a'', ''get'', ''responses'', ''default'', ''description'']
     (returned_paths (getPathsFromMethodHandlers ex_env (defaultResponse ex_env) ex_config
        \<lparr>ep_openApiSpecOverrides = None,
         handlers = [(''GET'', Some ex_plain), (''POST'', Some ex_custom_default)]\<rparr>
        ''/api/a''))
   = Some (JStr ''Custom error'')"
  by code_simp

section \<open>Properties of route discovery and aggregation\<close>

text \<open>
  Claim C7 at a route file with two dynamic segments. The backslashes are replaced by a
  regular expression with the \<open>g\<close> flag, the brackets by \<open>replace\<close> with a string pattern,
  which changes the first occurrence only: the second segment keeps its brackets.
\<close>

theorem route_of_file_second_bracket:
  "route_of_file ''users/[id]/posts/[postId].ts'' = ''/api/users/{id}/posts/[postId]''"
  by code_simp

lemma probe_step_failed: "probe_failed p \<Longrightarrow> probe_step paths p = paths"
  by (auto simp: probe_failed_def probe_step_def isPathItemObject_def get_key_def keys_def
      map_of_eq_None_iff split: probe.splits probe_body.splits json.splits)

lemma aggregate_skips_failed:
  "aggregate fetch headers paths routes =
     aggregate fetch headers paths
       (filter (\<lambda>route. \<not> probe_failed (fetch (probe_url headers route))) routes)"
  by (induction routes arbitrary: paths) (simp_all add: probe_step_failed)

lemma keys_set_key: "set (keys (set_key k v ob)) = insert k (set (keys ob))"
  unfolding keys_def set_key_def by (simp add: dom_update)

lemma keys_Cons: "set (keys ((k, v) # b)) = insert k (set (keys b))"
  by (simp add: keys_def)

lemma keys_assign_all: "set (keys (assign_all a b)) = set (keys a) \<union> set (keys b)"
proof (induction b arbitrary: a)
  case Nil
  show ?case by (simp add: keys_def)
next
  case (Cons x b)
  obtain k v where x: "x = (k, v)" by (cases x)
  show ?case unfolding x by (simp only: assign_all.simps Cons.IH keys_set_key keys_Cons) blast
qed

lemma keys_probe_step: "set (keys paths) \<subseteq> set (keys (probe_step paths p))"
  by (auto simp: probe_step_def keys_assign_all split: probe.splits probe_body.splits)

lemma keys_aggregate_mono: "set (keys paths) \<subseteq> set (keys (aggregate fetch headers paths routes))"
proof (induction routes arbitrary: paths)
  case Nil show ?case by simp
next
  case (Cons r routes)
  show ?case using keys_probe_step Cons.IH by (simp, blast)
qed

lemma keys_probe_step_fragment:
  "p = Response 200 (Parsed (JObj ob)) \<Longrightarrow> get_key ''nextRestFrameworkPaths'' ob = Some frag
     \<Longrightarrow> set (keys (spread_json frag)) \<subseteq> set (keys (probe_step paths p))"
  by (simp add: probe_step_def isPathItemObject_def keys_assign_all)

lemma keys_aggregate_fragment:
  "route \<in> set routes \<Longrightarrow> fetch (probe_url headers route) = Response 200 (Parsed (JObj ob))
     \<Longrightarrow> get_key ''nextRestFrameworkPaths'' ob = Some frag
     \<Longrightarrow> set (keys (spread_json frag)) \<subseteq> set (keys (aggregate fetch headers paths routes))"
proof (induction routes arbitrary: paths)
  case Nil then show ?case by simp
next
  case (Cons r routes)
  show ?case
  proof (cases "route = r")
    case True
    have "set (keys (spread_json frag)) \<subseteq> set (keys (probe_step paths (fetch (probe_url headers r))))"
      using Cons.prems True by (intro keys_probe_step_fragment) simp_all
    also have "\<dots> \<subseteq> set (keys (aggregate fetch headers (probe_step paths (fetch (probe_url headers r))) routes))"
      by (rule keys_aggregate_mono)
    finally show ?thesis by simp
  next
    case False
    with Cons.prems have "route \<in> set routes" by simp
    from Cons.IH [OF this Cons.prems(2,3)] show ?thesis by simp
  qed
qed

lemma probe_step_stalls: "stalls p \<Longrightarrow> probe_step paths p = paths"
  by (auto simp: stalls_def probe_step_def split: probe.splits probe_body.splits)

text \<open>
  When every probe settles, \<open>generatePaths\<close> returns, and what it returns is what the routes
  whose probes did not fail give: a network error, an abort by the timer, a malformed body, a
  status other than 200 or a body without the field leave \<open>paths\<close> as it was.
\<close>

lemma settled_probes_aggregate:
  assumes "getNestedApiRoutes sep tree [] = Inr files"
    and "\<forall>route \<in> set (map route_of_file (filter (filterApiRoutes config) files)).
           \<not> stalls (fetch (probe_url headers route))"
  shows "generatePaths sep tree fetch settle config headers =
      Some (Inr (aggregate fetch headers []
        (filter (\<lambda>route. \<not> probe_failed (fetch (probe_url headers route)))
           (settle (map route_of_file (filter (filterApiRoutes config) files))))))"
  using assms aggregate_skips_failed [of fetch headers "[]"]
  by (simp add: generatePaths_def Let_def list_ex_iff)

text \<open>The two example networks, evaluated.\<close>

lemma ex_generatePaths:
  "generatePaths CHR ''/'' ex_tree ex_fetch_stalled (\<lambda>routes. routes) ex_config ex_headers = None
   \<and> generatePaths CHR ''/'' ex_tree ex_fetch (\<lambda>routes. routes) ex_config ex_headers
       = Some (Inr [(''/api/b'', ex_fragment_b)])"
proof -
  have l: "getNestedApiRoutes CHR ''/'' ex_tree [] = Inr [''a.ts'', ''b.ts'']"
    by (simp add: ex_tree_def join_def)
  have f: "filter (filterApiRoutes ex_config) [''a.ts'', ''b.ts''] = [''a.ts'', ''b.ts'']"
    by (simp add: filterApiRoutes_def ex_config_def reserved_file_def)
  have r: "map route_of_file [''a.ts'', ''b.ts''] = [''/api/a'', ''/api/b'']"
    by (simp add: route_of_file_def replace_backslashes_def)
  have u: "probe_url ex_headers ''/api/a'' = ''http://localhost:3000/api/a''"
    "probe_url ex_headers ''/api/b'' = ''http://localhost:3000/api/b''"
    by (simp_all add: probe_url_def ex_headers_def)
  have sa: "stalls (ex_fetch_stalled ''http://localhost:3000/api/a'')"
    by (simp add: ex_fetch_stalled_def stalls_def)
  have na: "\<not> stalls (ex_fetch ''http://localhost:3000/api/a'')"
    "\<not> stalls (ex_fetch ''http://localhost:3000/api/b'')"
    by (simp_all add: ex_fetch_def stalls_def)
  have pa: "probe_step [] (ex_fetch ''http://localhost:3000/api/a'') = []"
    by (simp add: ex_fetch_def probe_step_def isPathItemObject_def get_key_def)
  have pb: "probe_step [] (ex_fetch ''http://localhost:3000/api/b'') = [(''/api/b'', ex_fragment_b)]"
    by (simp add: ex_fetch_def probe_step_def isPathItemObject_def get_key_def spread_json_def
        set_key_def)
  have "generatePaths CHR ''/'' ex_tree ex_fetch_stalled (\<lambda>routes. routes) ex_config ex_headers = None"
    unfolding generatePaths_def l by (simp only: sum.case f r Let_def) (simp add: u sa)
  moreover have "generatePaths CHR ''/'' ex_tree ex_fetch (\<lambda>routes. routes) ex_config ex_headers
       = Some (Inr [(''/api/b'', ex_fragment_b)])"
    unfolding generatePaths_def l by (simp only: sum.case f r Let_def) (simp add: u na pa pb)
  ultimately show ?thesis by simp
qed

text \<open>
  Claim C6 at a route whose response body never completes. The comment in the code says that
  the request is aborted when it takes longer than 200ms, but \<open>clearTimeout(abortRequest)\<close>
  runs before \<open>await res.json()\<close>: once the status and headers are in, no timer is left,
  the callback of that route never settles, and \<open>Promise.all\<close> never resolves. On the
  network where the first route stalls, \<open>generatePaths\<close> does not return; where that route
  answers 500 instead, it returns the fragment of the second route.
\<close>

theorem stalled_body_blocks_aggregation:
  "generatePaths CHR ''/'' ex_tree ex_fetch_stalled (\<lambda>routes. routes) ex_config ex_headers = None
   \<and> generatePaths CHR ''/'' ex_tree ex_fetch (\<lambda>routes. routes) ex_config ex_headers
       = Some (Inr [(''/api/b'', ex_fragment_b)])"
  by (rule ex_generatePaths)

section \<open>Properties of the spec cache and store\<close>

text \<open>
  Claim C3, as the code has it. The \<open>try\<close> block that reads \<open>openapi.json\<close> is at the top of
  the function and runs on every call, in production too. First the claim as written,
  refuted: a production process that served one document serves another one once the file
  has changed.
\<close>

theorem production_rereads_file:
  "fst (ex_production ex_config (ex_with_file ex_doc_a)) = Some (Inr ex_doc_a)
   \<and> fst (ex_production ex_config
          ((snd (snd (ex_production ex_config (ex_with_file ex_doc_a))))\<lparr>spec_file := Holds ex_doc_b\<rparr>))
       = Some (Inr ex_doc_b)
   \<and> ex_doc_a \<noteq> ex_doc_b"
  by (simp add: ex_production_def getOrCreateOpenApiSpec_def read_spec_file_def ex_with_file_def
      ex_fresh_def ex_doc_a_def ex_doc_b_def)

text \<open>
  Claim C3, amended. In production every call reads the file again. When it can be read and
  parsed, the parsed document becomes the cached one and is returned as it is; otherwise the
  document cached before is returned. The result does not depend on the routes or on the
  network, and the call leaves the file, the console, the count of writes and the
  configuration as they were.
\<close>

theorem production_serves_file_as_read:
  "getOrCreateOpenApiSpec env True sep tree fetch settle headers config st =
     (Some (Inr (case spec_file st of Holds j \<Rightarrow> j | Unreadable \<Rightarrow> openApiSpec st)),
      config,
      (case spec_file st of
         Holds j \<Rightarrow> st\<lparr>openApiSpec := j, shares_paths := False\<rparr>
       | Unreadable \<Rightarrow> st))"
  by (simp add: getOrCreateOpenApiSpec_def read_spec_file_def split: file_content.splits)

text \<open>
  Claim C8 at a configuration whose static overrides have a \<open>paths\<close> object. \<open>merge\<close> gets
  that object as its destination and changes it in place: after one development call the
  configuration holds the probed paths.
\<close>

theorem development_changes_config:
  "cfg_openApiSpecOverrides ex_config_paths = Some [(''paths'', JObj [])]
   \<and> cfg_openApiSpecOverrides (fst (snd (ex_development ex_config_paths ex_fresh)))
       = Some [(''paths'', JObj [(''/api/b'', ex_fragment_b)])]"
  by code_simp


lemma read_spec_file_cases:
  "read_spec_file st =
     (case spec_file st of
        Holds j \<Rightarrow> (st\<lparr>openApiSpec := j, shares_paths := False\<rparr>, True)
      | Unreadable \<Rightarrow> (st, False))"
  by (simp add: read_spec_file_def)



lemma spec_after_merge_frame:
  "spec_file (spec_after_merge config merged st) = spec_file st"
  "writes (spec_after_merge config merged st) = writes st"
  "\<not> shares_paths st \<Longrightarrow> spec_after_merge config merged st = st"
  by (auto simp: spec_after_merge_def split: json.splits)











text \<open>
  With a \<open>paths\<close> object in the static overrides and no readable file, the cached document
  shares its \<open>paths\<close> with the configuration: the merge of a later call changes both before
  they are compared, and a changed route is neither written nor logged.
\<close>

lemma changed_route_not_written:
  "writes (ex_after_first ex_config_paths) = 1
   \<and> writes (snd (snd (ex_development_with ex_fetch_same_key id
                (fst (snd (ex_development ex_config_paths ex_fresh)))
                ((ex_after_first ex_config_paths)\<lparr>spec_file := Unreadable\<rparr>)))) = 1
   \<and> console (snd (snd (ex_development_with ex_fetch_same_key id
                (fst (snd (ex_development ex_config_paths ex_fresh)))
                ((ex_after_first ex_config_paths)\<lparr>spec_file := Unreadable\<rparr>))))
       = console (ex_after_first ex_config_paths)
   \<and> get_path [''paths'', ''/api/x'']
        (openApiSpec (snd (snd (ex_development_with ex_fetch_same_key id
                (fst (snd (ex_development ex_config_paths ex_fresh)))
                ((ex_after_first ex_config_paths)\<lparr>spec_file := Unreadable\<rparr>))))) = Some ex_fragment_b"
  by code_simp

subsection \<open>JSON values under \<open>merge\<close> and \<open>isEqual\<close>\<close>

lemma is_json_obj_iff: "is_json_obj ob \<longleftrightarrow> (\<forall>(k, v) \<in> set ob. is_json v)"
  by (induction ob) auto

lemma is_json_arr_iff: "is_json_arr xs \<longleftrightarrow> (\<forall>x \<in> set xs. is_json x)"
  by (induction xs) auto










lemma set_key_same: "get_key k ob = Some v \<Longrightarrow> set_key k v ob = ob"
  by (simp add: get_key_def set_key_def update_triv)

text \<open>
  Merging the same source a second time changes nothing: a destination that already holds
  what the source asks for is left as it is.
\<close>

lemma merge_obj_fixed:
  "(\<And>k sv. (k, sv) \<in> set src \<Longrightarrow> \<exists>v. get_key k r = Some v \<and> merge_key (Some v) sv = v)
     \<Longrightarrow> merge_obj r src = r"
proof (induction src)
  case Nil show ?case by simp
next
  case (Cons x src)
  obtain k sv where x: "x = (k, sv)" by (cases x)
  from Cons.prems [of k sv] x obtain v where v: "get_key k r = Some v" "merge_key (Some v) sv = v"
    by auto
  then have "set_key k (merge_key (get_key k r) sv) r = r" by (simp add: set_key_same)
  moreover have "merge_obj r src = r" by (rule Cons.IH) (rule Cons.prems, simp)
  ultimately show ?case using x by simp
qed

lemma get_key_merge_obj:
  "distinct (map fst src) \<Longrightarrow> (k, sv) \<in> set src
     \<Longrightarrow> get_key k (merge_obj dst src) = Some (merge_key (get_key k dst) sv)"
proof (induction src arbitrary: dst)
  case Nil then show ?case by simp
next
  case (Cons x src)
  obtain k' sv' where x: "x = (k', sv')" by (cases x)
  show ?case
  proof (cases "(k, sv) = x")
    case True
    then have "k \<notin> fst ` set src" using Cons.prems(1) x by auto
    then show ?thesis using True x by (simp add: get_key_merge_obj_other get_key_set_key)
  next
    case False
    then have in_src: "(k, sv) \<in> set src" using Cons.prems(2) by simp
    then have "k \<noteq> k'" using Cons.prems(1) x by (auto simp: image_iff)
    moreover have "distinct (map fst src)" using Cons.prems(1) by simp
    ultimately show ?thesis using Cons.IH [OF _ in_src] x by (simp add: get_key_set_key)
  qed
qed

lemma merge_obj_idem_aux:
  assumes elems: "\<And>k sv ov. (k, sv) \<in> set src \<Longrightarrow> merge_key (Some (merge_key ov sv)) sv = merge_key ov sv"
    and d: "distinct (map fst src)"
  shows "merge_obj (merge_obj dst src) src = merge_obj dst src"
proof (rule merge_obj_fixed)
  fix k sv assume in_src: "(k, sv) \<in> set src"
  show "\<exists>v. get_key k (merge_obj dst src) = Some v \<and> merge_key (Some v) sv = v"
    using get_key_merge_obj [OF d in_src] elems [OF in_src] by simp
qed

lemma merge_arr_idem_aux:
  assumes elems: "\<And>sv ov. sv \<in> set src \<Longrightarrow> merge_key (Some (merge_key ov sv)) sv = merge_key ov sv"
  shows "merge_arr (merge_arr dst src) src = merge_arr dst src"
  using elems
proof (induction src arbitrary: dst)
  case Nil show ?case by simp
next
  case (Cons sv src)
  show ?case
  proof (cases dst)
    case Nil
    then show ?thesis using Cons.prems Cons.IH [of "[]"] by simp
  next
    case (Cons d dst')
    then show ?thesis using Cons.prems Cons.IH [of dst'] by simp
  qed
qed

lemma merge_key_idem:
  "is_json sv \<Longrightarrow> merge_key (Some (merge_key ov sv)) sv = merge_key ov sv"
proof (induction sv arbitrary: ov)
  case (JArr xs)
  have step: "\<And>dst. merge_arr (merge_arr dst xs) xs = merge_arr dst xs"
    using JArr.prems by (intro merge_arr_idem_aux) (auto intro: JArr.IH simp: is_json_arr_iff)
  show ?case
  proof (cases ov)
    case None then show ?thesis using step by simp
  next
    case (Some d) then show ?thesis using step by (cases d) simp_all
  qed
next
  case (JObj ob)
  have step: "\<And>dst. merge_obj (merge_obj dst ob) ob = merge_obj dst ob"
    using JObj.prems
    by (intro merge_obj_idem_aux) (auto intro!: JObj.IH simp: is_json_obj_iff Basic_BNFs.snds.simps)
  show ?case
  proof (cases ov)
    case None then show ?thesis using step by simp
  next
    case (Some d) then show ?thesis using step by (cases d) simp_all
  qed
qed simp_all

lemma merge_obj_idem:
  "is_json (JObj src) \<Longrightarrow> merge_obj (merge_obj dst src) src = merge_obj dst src"
  by (rule merge_obj_idem_aux) (auto simp: is_json_obj_iff intro: merge_key_idem)

text \<open>\<open>isEqual\<close> holds between a JSON value and itself.\<close>

lemma isEqual_obj_subset:
  "distinct (map fst b) \<Longrightarrow> set a \<subseteq> set b \<Longrightarrow> (\<And>k v. (k, v) \<in> set a \<Longrightarrow> isEqual v v)
     \<Longrightarrow> isEqual_obj a b"
proof (induction a)
  case Nil show ?case by simp
next
  case (Cons x a)
  obtain k v where x: "x = (k, v)" by (cases x)
  have "map_of b k = Some v" using Cons.prems(1,2) x by simp
  moreover have "isEqual v v" using Cons.prems(3) [of k v] x by simp
  moreover have "isEqual_obj a b" using Cons.prems by (intro Cons.IH) auto
  ultimately show ?case using x by simp
qed

lemma isEqual_arr_refl: "(\<And>x. x \<in> set xs \<Longrightarrow> isEqual x x) \<Longrightarrow> isEqual_arr xs xs"
  by (induction xs) auto

lemma isEqual_refl: "is_json x \<Longrightarrow> isEqual x x"
proof (induction x)
  case (JArr xs)
  then show ?case by (auto intro!: isEqual_arr_refl simp: is_json_arr_iff)
next
  case (JObj ob)
  then show ?case
    by (auto intro!: isEqual_obj_subset JObj.IH simp: is_json_obj_iff Basic_BNFs.snds.simps)
qed simp_all



subsection \<open>A second development call\<close>















lemma config_paths_after_merge:
  "config_paths (config_after_merge config merged) =
     (if config_paths config = None then None else Some merged)"
  by (auto simp: config_paths_def config_after_merge_def get_key_set_key split: option.splits json.splits)



lemma merge_again:
  assumes "is_json (JObj paths)"
  shows "merge (config_paths (config_after_merge config (merge (config_paths config) (Some paths)))) (Some paths)
     = merge (config_paths config) (Some paths)"
proof (cases "config_paths config")
  case None
  then show ?thesis by (simp add: config_paths_after_merge)
next
  case (Some p)
  then show ?thesis using assms merge_obj_idem [OF assms, of p]
    by (simp add: config_paths_after_merge merge_def)
qed

subsection \<open>Merging into an empty object\<close>





subsection \<open>Values that differ in the order of keys\<close>




lemma entries_left:
  "list_all2 (\<lambda>x y. P x \<and> Q x y) a a' \<Longrightarrow> z \<in> set a \<Longrightarrow> P z"
  by (induction rule: list_all2_induct) auto













subsection \<open>The order in which the probes settle\<close>











subsection \<open>A second development call\<close>









subsection \<open>The shared default response\<close>

text \<open>
  The two views of the in-place merge agree: when a handler's overrides hold a plain object
  under \<open>responses.default\<close>, the default response of the operation is the value that the
  shared object has afterwards.
\<close>

lemma get_key_mem: "get_key k ob = Some v \<Longrightarrow> (k, v) \<in> set ob"
  by (simp add: get_key_def map_of_SomeD)

lemma operation_default_is_shared_default:
  assumes ov: "openApiSpecOverrides h = Some src"
    and ds: "distinct (map fst src)"
    and r: "get_key ''responses'' src = Some (JObj r)"
    and dr: "distinct (map fst r)"
    and d: "get_key ''default'' r = Some (JObj d)"
  shows "get_path [''responses'', ''default''] (JObj (operation env shared route h))
           = Some (defaultResponse_after shared (openApiSpecOverrides h))"
proof -
  let ?g = "generatedOperationObject env shared route h"
  let ?resp = "set_key ''default'' shared (spread (generatedResponses env (mh_output h)))"
  have "get_key ''responses'' (merge_obj ?g src)
      = Some (merge_key (get_key ''responses'' ?g) (JObj r))"
    by (rule get_key_merge_obj [OF ds get_key_mem [OF r]])
  also have "\<dots> = Some (JObj (merge_obj ?resp r))"
    by (simp add: get_key_responses_generated)
  finally have a: "get_key ''responses'' (operation env shared route h) = Some (JObj (merge_obj ?resp r))"
    by (simp add: operation_def merge_def ov)
  have "get_key ''default'' (merge_obj ?resp r)
      = Some (merge_key (get_key ''default'' ?resp) (JObj d))"
    by (rule get_key_merge_obj [OF dr get_key_mem [OF d]])
  also have "\<dots> = Some (merge_key (Some shared) (JObj d))"
    by (simp add: get_key_set_key)
  finally show ?thesis
    by (simp add: a defaultResponse_after_def ov r d)
qed

end
